theory Spec2Isabelle
  imports Main
begin

section \<open>Routing manifest generation of the Cloudflare adapter\<close>

text \<open>
  A shallow embedding of \<^verbatim>\<open>packages/cloudflare/src/utils/generate-routes.ts\<close>:
  the segment parser \<^verbatim>\<open>getParts\<close>, the pattern compiler \<^verbatim>\<open>segmentsToCfSyntax\<close>,
  the comparator \<^verbatim>\<open>sort\<close>, the pass \<^verbatim>\<open>deduplicateInPlace\<close> and the default export
  that selects the manifest.

  A JavaScript string is a \<open>string\<close>: a list of 8-bit characters. The code units
  U+2028 and U+2029, which JavaScript also counts as line terminators, lie outside
  this type.
\<close>

subsection \<open>Data\<close>

text \<open>
  \<open>Error\<close> is \<^verbatim>\<open>throw new Error(message)\<close> with its message.
  \<open>RegExpOutsideFragment\<close> marks a call of \<^verbatim>\<open>new RegExp(source)\<close> whose source lies
  outside the fragment of the pattern language modelled below.
\<close>

datatype error = Error string | RegExpOutsideFragment string

record RoutePart =
  content :: string
  dynamic :: bool
  spread :: bool

text \<open>
  Modelled from the spec: the declaration of \<^verbatim>\<open>RouteData\<close> is imported from the
  \<^verbatim>\<open>astro\<close> package; the spec gives its route type as page, endpoint or redirect,
  and the fields the code reads are \<^verbatim>\<open>segments\<close>, \<^verbatim>\<open>type\<close>, \<^verbatim>\<open>prerender\<close>, \<^verbatim>\<open>pathname\<close>.
\<close>

datatype RouteType = Page | Endpoint | Redirect

record RouteData =
  segments :: "RoutePart list list"
  rtype :: RouteType
  prerender :: bool
  pathname :: string

text \<open>The fields of \<^verbatim>\<open>AstroConfig\<close> that the pattern code reads:
  \<^verbatim>\<open>_config.base\<close> and \<^verbatim>\<open>_config.build.assetsPrefix\<close> (which may be undefined).\<close>

record AstroConfig =
  base :: string
  assetsPrefix :: "string option"

subsection \<open>Regular expressions of the segment parser\<close>

definition lineTerminator :: "char \<Rightarrow> bool" where
  "lineTerminator c = (c = CHR 0x0A \<or> c = CHR 0x0D)"

definition wordChar :: "char \<Rightarrow> bool" where
  "wordChar c = (c \<in> set ''ABCDEFGHIJKLMNOPQRSTUVWXYZabcdefghijklmnopqrstuvwxyz0123456789_'')"

text \<open>
  The backtracking matcher in continuation style: a matcher takes the continuation
  \<open>k\<close> for what follows it in the pattern and the rest of the input, and returns the
  input left after the first successful match in the engine's order of trial.

  \<open>re_char c\<close> is a literal character; \<open>re_dot_star_lazy\<close> is \<^verbatim>\<open>.*?\<close> (the shortest
  run first) and \<open>re_dot_plus_lazy\<close> is \<^verbatim>\<open>.+?\<close>.
\<close>

fun re_char :: "char \<Rightarrow> (string \<Rightarrow> string option) \<Rightarrow> string \<Rightarrow> string option" where
  "re_char c k [] = None"
| "re_char c k (x # xs) = (if x = c then k xs else None)"

fun re_dot_star_lazy :: "(string \<Rightarrow> string option) \<Rightarrow> string \<Rightarrow> string option" where
  "re_dot_star_lazy k [] = k []"
| "re_dot_star_lazy k (x # xs) =
     (case k (x # xs) of
        Some r \<Rightarrow> Some r
      | None \<Rightarrow> if lineTerminator x then None else re_dot_star_lazy k xs)"

fun re_dot_plus_lazy :: "(string \<Rightarrow> string option) \<Rightarrow> string \<Rightarrow> string option" where
  "re_dot_plus_lazy k [] = None"
| "re_dot_plus_lazy k (x # xs) = (if lineTerminator x then None else re_dot_star_lazy k xs)"

text \<open>
  \<^verbatim>\<open>/\[(.+?\(.+?\)|.+?)\]/\<close> at the start of the input. After the opening bracket
  the first alternative \<^verbatim>\<open>.+?\(.+?\)\<close> is tried with the closing bracket as its
  continuation, then the second alternative \<^verbatim>\<open>.+?\<close>. The result is the captured
  group and the input after the closing bracket.
\<close>

definition bracket_alt1 :: "string \<Rightarrow> string option" where
  "bracket_alt1 =
     re_dot_plus_lazy (re_char (CHR ''('')
       (re_dot_plus_lazy (re_char (CHR '')'') (re_char (CHR '']'') Some))))"

definition bracket_alt2 :: "string \<Rightarrow> string option" where
  "bracket_alt2 = re_dot_plus_lazy (re_char (CHR '']'') Some)"

definition match_bracket :: "string \<Rightarrow> (string \<times> string) option" where
  "match_bracket s =
     (case s of
        [] \<Rightarrow> None
      | c # t \<Rightarrow>
          if c \<noteq> CHR ''['' then None
          else (case (case bracket_alt1 t of Some r \<Rightarrow> Some r | None \<Rightarrow> bracket_alt2 t) of
                  None \<Rightarrow> None
                | Some r \<Rightarrow> Some (take (length t - length r - 1) t, r)))"

lemma re_char_shorter:
  assumes "re_char c k s = Some r" and "\<And>t u. k t = Some u \<Longrightarrow> length u \<le> length t"
  shows "length r < length s"
  using assms by (cases s) (auto split: if_splits simp: le_imp_less_Suc)

lemma re_dot_star_lazy_shorter:
  assumes "re_dot_star_lazy k s = Some r" and "\<And>t u. k t = Some u \<Longrightarrow> length u \<le> length t"
  shows "length r \<le> length s"
  using assms
proof (induction s)
  case Nil
  then have "k [] = Some r" by simp
  then show ?case using Nil.prems(2) by blast
next
  case (Cons x xs)
  show ?case
  proof (cases "k (x # xs)")
    case None
    with Cons.prems(1) have "re_dot_star_lazy k xs = Some r"
      by (simp split: if_splits)
    then have "length r \<le> length xs"
      using Cons.IH Cons.prems(2) by blast
    then show ?thesis by simp
  next
    case (Some u)
    with Cons.prems(1) have "u = r" by simp
    with Some Cons.prems(2) show ?thesis by blast
  qed
qed

lemma re_dot_plus_lazy_shorter:
  assumes "re_dot_plus_lazy k s = Some r" and "\<And>t u. k t = Some u \<Longrightarrow> length u \<le> length t"
  shows "length r < length s"
proof (cases s)
  case Nil
  with assms(1) show ?thesis by simp
next
  case (Cons x xs)
  with assms(1) have "re_dot_star_lazy k xs = Some r"
    by (simp split: if_splits)
  then have "length r \<le> length xs"
    using re_dot_star_lazy_shorter assms(2) by blast
  with Cons show ?thesis by simp
qed

lemma bracket_alt2_shorter: "bracket_alt2 s = Some r \<Longrightarrow> length r < length s"
  unfolding bracket_alt2_def
  by (erule re_dot_plus_lazy_shorter) (auto dest!: re_char_shorter)

lemma bracket_alt1_shorter: "bracket_alt1 s = Some r \<Longrightarrow> length r < length s"
  unfolding bracket_alt1_def
  apply (erule re_dot_plus_lazy_shorter)
  apply (rule less_imp_le)
  apply (erule re_char_shorter)
  apply (rule less_imp_le)
  apply (erule re_dot_plus_lazy_shorter)
  apply (rule less_imp_le)
  apply (erule re_char_shorter)
  apply (rule less_imp_le)
  apply (erule re_char_shorter)
  apply simp
  done

lemma match_bracket_shorter:
  "match_bracket s = Some (cap, rest) \<Longrightarrow> length rest < length s"
  unfolding match_bracket_def
  by (auto split: list.splits if_splits option.splits
      dest!: bracket_alt1_shorter bracket_alt2_shorter)

text \<open>
  \<^verbatim>\<open>part.split(/\[(.+?\(.+?\)|.+?)\]/)\<close>: the input is scanned from the left; at
  each position the pattern is tried; a match closes the current piece, adds the
  captured group and goes on after the match; otherwise the character joins the
  current piece \<open>acc\<close>. The final piece is always added.
\<close>

function split_bracket :: "string \<Rightarrow> string \<Rightarrow> string list" where
  "split_bracket acc [] = [acc]"
| "split_bracket acc (c # cs) =
     (case match_bracket (c # cs) of
        Some (cap, rest) \<Rightarrow> acc # cap # split_bracket [] rest
      | None \<Rightarrow> split_bracket (acc @ [c]) cs)"
  by pat_completeness auto
termination
  by (relation "measure (\<lambda>(acc, s). length s)") (auto dest: match_bracket_shorter)

text \<open>\<^verbatim>\<open>/([^(]+)$/.exec(str)\<close>, group 1: the leftmost non-empty suffix without an
  opening parenthesis.\<close>

fun exec_name :: "string \<Rightarrow> string option" where
  "exec_name [] = None"
| "exec_name (c # cs) = (if CHR ''('' \<notin> set (c # cs) then Some (c # cs) else exec_name cs)"

definition wordPlus :: "string \<Rightarrow> bool" where
  "wordPlus s = (s \<noteq> [] \<and> list_all (\<lambda>c. wordChar c \<or> c = CHR ''$'') s)"

text \<open>\<^verbatim>\<open>/^(?:\.\.\.)?[\w$]+$/.test(content)\<close>\<close>

definition test_name :: "string \<Rightarrow> bool" where
  "test_name s = ((take 3 s = ''...'' \<and> wordPlus (drop 3 s)) \<or> wordPlus s)"

text \<open>\<^verbatim>\<open>/^\.{3}.+$/.test(content)\<close>\<close>

definition test_spread :: "string \<Rightarrow> bool" where
  "test_spread s =
     (take 3 s = ''...'' \<and> drop 3 s \<noteq> [] \<and> list_all (\<lambda>c. \<not> lineTerminator c) (drop 3 s))"

subsection \<open>getParts\<close>

definition parameter_message :: string where
  "parameter_message = ''Parameter name must match /^[a-zA-Z0-9_$]+$/''"

text \<open>The callback of \<^verbatim>\<open>map\<close>, run over the pieces with their index \<open>i\<close>; \<open>result\<close>
  is the array being filled.\<close>

fun getParts_map :: "nat \<Rightarrow> string list \<Rightarrow> RoutePart list \<Rightarrow> error + RoutePart list" where
  "getParts_map i [] result = Inr result"
| "getParts_map i (str # strs) result =
     (if str = [] then getParts_map (Suc i) strs result
      else
        let dyn = (i mod 2 = 1);
            cont = (if dyn then exec_name str else Some str)
        in (case cont of
              None \<Rightarrow> Inl (Error parameter_message)
            | Some c \<Rightarrow>
                if c = [] \<or> (dyn \<and> \<not> test_name c) then Inl (Error parameter_message)
                else getParts_map (Suc i) strs
                       (result @ [\<lparr>content = c, dynamic = dyn, spread = (dyn \<and> test_spread c)\<rparr>])))"

definition getParts :: "string \<Rightarrow> error + RoutePart list" where
  "getParts part = getParts_map 0 (split_bracket [] part) []"

subsection \<open>segmentsToCfSyntax\<close>

text \<open>
  Modelled from the spec: \<^verbatim>\<open>removeLeadingForwardSlash\<close> and
  \<^verbatim>\<open>removeTrailingForwardSlash\<close> are imported from \<^verbatim>\<open>./assets.js\<close>; the spec
  says that the base path has its leading and trailing separator stripped.
\<close>

definition removeLeadingForwardSlash :: "string \<Rightarrow> string" where
  "removeLeadingForwardSlash path =
     (case path of [] \<Rightarrow> [] | c # cs \<Rightarrow> if c = CHR ''/'' then cs else path)"

definition removeTrailingForwardSlash :: "string \<Rightarrow> string" where
  "removeTrailingForwardSlash path =
     (if path \<noteq> [] \<and> last path = CHR ''/'' then butlast path else path)"

text \<open>The loop \<^verbatim>\<open>for (const segment of segments.flat())\<close>, over the flattened
  list; \<open>pathSegments\<close> is the array being filled.\<close>

fun push_segments :: "RoutePart list \<Rightarrow> string list \<Rightarrow> string list" where
  "push_segments [] pathSegments = pathSegments"
| "push_segments (segment # rest) pathSegments =
     push_segments rest
       (if dynamic segment then pathSegments @ [''*''] else pathSegments @ [content segment])"

definition segmentsToCfSyntax :: "RoutePart list list \<Rightarrow> AstroConfig \<Rightarrow> string list" where
  "segmentsToCfSyntax segs cfg =
     (if length segs = 0 then [[], []]
      else push_segments (concat segs)
             [removeLeadingForwardSlash (removeTrailingForwardSlash (base cfg))])"

subsection \<open>sort\<close>

text \<open>The \<^verbatim>\<open>for\<close> loop of the comparator, from index \<open>i\<close>. It runs only on
  sequences of equal length, so both reads are in range.\<close>

function sort_loop :: "string list \<Rightarrow> string list \<Rightarrow> nat \<Rightarrow> int" where
  "sort_loop first second i =
     (if i < length first then
        (if first ! i = second ! i then sort_loop first second (Suc i)
         else if first ! i = ''*'' \<and> second ! i \<noteq> ''*'' then - 1
         else if first ! i \<noteq> ''*'' \<and> second ! i = ''*'' then 1
         else sort_loop first second (Suc i))
      else 0)"
  by pat_completeness auto
termination
  by (relation "measure (\<lambda>(first, second, i). length first - i)") auto

declare sort_loop.simps [simp del]

definition sort_cmp :: "string list \<Rightarrow> string list \<Rightarrow> int" where
  "sort_cmp first second =
     (if length second > length first then - 1
      else if length first > length second then 1
      else sort_loop first second 0)"

text \<open>The comparison of the loop on the two remaining token lists, by recursion
  on the lists: an auxiliary view of \<open>sort_loop\<close> used in the proofs.\<close>

fun cmp_tokens :: "string list \<Rightarrow> string list \<Rightarrow> int" where
  "cmp_tokens (x # xs) (y # ys) =
     (if x = y then cmp_tokens xs ys
      else if x = ''*'' \<and> y \<noteq> ''*'' then - 1
      else if x \<noteq> ''*'' \<and> y = ''*'' then 1
      else cmp_tokens xs ys)"
| "cmp_tokens [] ys = 0"
| "cmp_tokens xs [] = 0"

text \<open>
  \<^verbatim>\<open>Array.prototype.sort(compareFn)\<close> is stable; an element goes before the
  first later element that it does not sort after.
\<close>

fun insert_sorted :: "('a \<Rightarrow> 'a \<Rightarrow> int) \<Rightarrow> 'a \<Rightarrow> 'a list \<Rightarrow> 'a list" where
  "insert_sorted cmp x [] = [x]"
| "insert_sorted cmp x (y # ys) =
     (if cmp x y \<le> 0 then x # y # ys else y # insert_sorted cmp x ys)"

definition array_sort :: "('a \<Rightarrow> 'a \<Rightarrow> int) \<Rightarrow> 'a list \<Rightarrow> 'a list" where
  "array_sort cmp xs = foldr (insert_sorted cmp) xs []"

subsection \<open>The RegExp of deduplicateInPlace\<close>

text \<open>\<^verbatim>\<open>Array.prototype.join\<close> on an array of strings.\<close>

fun join :: "string \<Rightarrow> string list \<Rightarrow> string" where
  "join sep [] = []"
| "join sep [x] = x"
| "join sep (x # y # ys) = x @ sep @ join sep (y # ys)"

text \<open>
  \<^verbatim>\<open>.replace(/(\*\/)*\*$/g, '[*\\w\\/]+')\<close>. \<open>star_run s\<close> holds when all of \<open>s\<close>
  matches \<^verbatim>\<open>(\*\/)*\*\<close>; the pattern ends at the end of the input, so the leftmost
  match is the longest suffix of that form, and there is no second match.
\<close>

fun star_run :: "string \<Rightarrow> bool" where
  "star_run [] = False"
| "star_run [c] = (c = CHR ''*'')"
| "star_run (a # b # cs) = (a = CHR ''*'' \<and> b = CHR ''/'' \<and> star_run cs)"

definition wildcard_class :: string where
  "wildcard_class =
     [CHR ''['', CHR ''*'', CHR 0x5C, CHR ''w'', CHR 0x5C, CHR ''/'', CHR '']'', CHR ''+'']"

fun replace_wildcards :: "string \<Rightarrow> string" where
  "replace_wildcards [] = []"
| "replace_wildcards (c # cs) =
     (if star_run (c # cs) then wildcard_class else c # replace_wildcards cs)"

text \<open>
  The pattern source is not escaped, so the characters of the tokens are pattern
  syntax. The fragment modelled: a literal character, \<^verbatim>\<open>.\<close> and the class
  \<^verbatim>\<open>[*\w\/]\<close>, each alone or under a greedy \<^verbatim>\<open>*\<close> or \<^verbatim>\<open>+\<close>, and \<^verbatim>\<open>$\<close>.
  For any other source \<open>parse_re\<close> is \<open>None\<close>: JavaScript then either throws a
  SyntaxError or builds a pattern with operators outside this fragment.
\<close>

datatype re_atom = AChar char | ADot | AClass

datatype re_quant = QOne | QStar | QPlus

datatype re_item = Item re_atom re_quant | Eol

definition syntaxChar :: "char \<Rightarrow> bool" where
  "syntaxChar c = (c \<in> set ''^$.*+?()[]{}|'' \<or> c = CHR 0x5C)"

text \<open>The atom that starts with \<open>c\<close>, and the number of further characters it takes.\<close>

definition parse_atom :: "char \<Rightarrow> string \<Rightarrow> (re_atom \<times> nat) option" where
  "parse_atom c cs =
     (if c = CHR ''.'' then Some (ADot, 0)
      else if c = CHR ''['' \<and> take 6 cs = tl (butlast wildcard_class) then Some (AClass, 6)
      else if syntaxChar c then None
      else Some (AChar c, 0))"

lemma drop_Cons_shorter: "drop n xs = y # ys \<Longrightarrow> length ys < length xs"
  by (drule arg_cong [where f = length]) simp

function parse_re :: "string \<Rightarrow> re_item list option" where
  "parse_re [] = Some []"
| "parse_re (c # cs) =
     (if c = CHR ''$'' then map_option ((#) Eol) (parse_re cs)
      else
        (case parse_atom c cs of
           None \<Rightarrow> None
         | Some (a, n) \<Rightarrow>
             (case drop n cs of
                [] \<Rightarrow> Some [Item a QOne]
              | q # r \<Rightarrow>
                  if q = CHR ''*'' then map_option ((#) (Item a QStar)) (parse_re r)
                  else if q = CHR ''+'' then map_option ((#) (Item a QPlus)) (parse_re r)
                  else map_option ((#) (Item a QOne)) (parse_re (q # r)))))"
  by pat_completeness auto
termination
  by (relation "measure length") (auto dest: drop_Cons_shorter)

fun atom_accepts :: "re_atom \<Rightarrow> char \<Rightarrow> bool" where
  "atom_accepts (AChar c) x = (x = c)"
| "atom_accepts ADot x = (\<not> lineTerminator x)"
| "atom_accepts AClass x = (x = CHR ''*'' \<or> wordChar x \<or> x = CHR ''/'')"

text \<open>A greedy run of characters that satisfy \<open>p\<close>, the longest first, then \<open>k\<close>.\<close>

fun re_greedy :: "(char \<Rightarrow> bool) \<Rightarrow> (string \<Rightarrow> string option) \<Rightarrow> string \<Rightarrow> string option" where
  "re_greedy p k [] = k []"
| "re_greedy p k (x # xs) =
     (if p x then (case re_greedy p k xs of Some r \<Rightarrow> Some r | None \<Rightarrow> k (x # xs))
      else k (x # xs))"

text \<open>The items matched at the start of the input; the result is the input left
  after the match. With the flag \<^verbatim>\<open>m\<close>, \<^verbatim>\<open>$\<close> holds at the end of the input and
  before a line terminator.\<close>

fun match_items :: "re_item list \<Rightarrow> string \<Rightarrow> string option" where
  "match_items [] s = Some s"
| "match_items (Eol # its) s =
     (if s = [] \<or> lineTerminator (hd s) then match_items its s else None)"
| "match_items (Item a QOne # its) s =
     (case s of [] \<Rightarrow> None | x # xs \<Rightarrow> if atom_accepts a x then match_items its xs else None)"
| "match_items (Item a QStar # its) s = re_greedy (atom_accepts a) (\<lambda>t. match_items its t) s"
| "match_items (Item a QPlus # its) s =
     (case s of
        [] \<Rightarrow> None
      | x # xs \<Rightarrow>
          if atom_accepts a x then re_greedy (atom_accepts a) (\<lambda>t. match_items its t) xs
          else None)"

text \<open>The first match that starts at the head of the input or later.\<close>

fun search_items :: "re_item list \<Rightarrow> string \<Rightarrow> string option" where
  "search_items its [] = match_items its []"
| "search_items its (x # xs) =
     (case match_items its (x # xs) of Some r \<Rightarrow> Some r | None \<Rightarrow> search_items its xs)"

text \<open>
  \<^verbatim>\<open>regexp.test(str)\<close> on a RegExp with the flag \<^verbatim>\<open>g\<close>: the search starts at
  \<^verbatim>\<open>lastIndex\<close>; a match sets \<^verbatim>\<open>lastIndex\<close> to its end, a failure sets it to 0.
  The result is the answer and the new \<^verbatim>\<open>lastIndex\<close>.
\<close>

definition regexp_test :: "re_item list \<Rightarrow> nat \<Rightarrow> string \<Rightarrow> bool \<times> nat" where
  "regexp_test its lastIndex str =
     (if lastIndex > length str then (False, 0)
      else (case search_items its (drop lastIndex str) of
              Some r \<Rightarrow> (True, length str - length r)
            | None \<Rightarrow> (False, 0)))"

subsection \<open>deduplicateInPlace\<close>

text \<open>\<^verbatim>\<open>paths.splice(i, 1)\<close>\<close>

definition splice1 :: "nat \<Rightarrow> 'a list \<Rightarrow> 'a list" where
  "splice1 i xs = take i xs @ drop (Suc i) xs"

text \<open>The \<^verbatim>\<open>for\<close> loop over \<open>i\<close>; after a removal \<^verbatim>\<open>i--\<close> and \<^verbatim>\<open>i++\<close> leave \<open>i\<close>
  where it is. \<open>li\<close> is the \<^verbatim>\<open>lastIndex\<close> of the one RegExp object of the call.\<close>

function dedup_loop :: "re_item list \<Rightarrow> nat \<Rightarrow> nat \<Rightarrow> string list list \<Rightarrow> string list list" where
  "dedup_loop re li i paths =
     (if i < length paths then
        (case regexp_test re li (join ''/'' (paths ! i)) of
           (True, li') \<Rightarrow> dedup_loop re li' i (splice1 i paths)
         | (False, li') \<Rightarrow> dedup_loop re li' (Suc i) paths)
      else paths)"
  by pat_completeness auto
termination
  by (relation "measure (\<lambda>(re, li, i, paths). 2 * length paths - i)")
    (auto simp: splice1_def)

definition deduplicateInPlace ::
  "string list \<Rightarrow> nat \<Rightarrow> string list list \<Rightarrow> error + string list list" where
  "deduplicateInPlace element index paths =
     (let source = replace_wildcards (join ''/'' element) @ ''$'' in
      case parse_re source of
        None \<Rightarrow> Inl (RegExpOutsideFragment source)
      | Some re \<Rightarrow> Inr (dedup_loop re 0 (Suc index) paths))"

declare dedup_loop.simps [simp del]

lemma length_dedup_loop: "length (dedup_loop re li i paths) \<le> length paths"
proof (induction re li i paths rule: dedup_loop.induct)
  case (1 re li i paths)
  show ?case
  proof (cases "i < length paths")
    case False
    then show ?thesis by (subst dedup_loop.simps) simp
  next
    case True
    obtain b li' where t: "regexp_test re li (join ''/'' (paths ! i)) = (b, li')"
      by (cases "regexp_test re li (join ''/'' (paths ! i))")
    show ?thesis
    proof (cases b)
      case True
      with t \<open>i < length paths\<close> "1.IH"(1)
      have "length (dedup_loop re li' i (splice1 i paths)) \<le> length (splice1 i paths)"
        by simp
      moreover have "length (splice1 i paths) \<le> length paths"
        by (simp add: splice1_def)
      ultimately show ?thesis
        using t True \<open>i < length paths\<close> by (subst dedup_loop.simps) simp
    next
      case False
      with t \<open>i < length paths\<close> "1.IH"(2)
      have "length (dedup_loop re li' (Suc i) paths) \<le> length paths"
        by simp
      then show ?thesis
        using t False \<open>i < length paths\<close> by (subst dedup_loop.simps) simp
    qed
  qed
qed

lemma length_deduplicateInPlace:
  "deduplicateInPlace element index paths = Inr paths' \<Longrightarrow> length paths' \<le> length paths"
  unfolding deduplicateInPlace_def Let_def
  by (auto split: option.splits simp: length_dedup_loop)

subsection \<open>The default export\<close>

text \<open>
  The loop \<^verbatim>\<open>for (const [index, element] of paths.entries())\<close>: the iterator
  reads the array as it is at each step, so a step happens while \<open>index\<close> is below
  the current length.
\<close>

function dedup_entries :: "nat \<Rightarrow> string list list \<Rightarrow> error + string list list" where
  "dedup_entries index paths =
     (if index < length paths then
        (case deduplicateInPlace (paths ! index) index paths of
           Inl e \<Rightarrow> Inl e
         | Inr paths' \<Rightarrow> dedup_entries (Suc index) paths')
      else Inr paths)"
  by pat_completeness auto
termination
  by (relation "measure (\<lambda>(index, paths). length paths - index)")
    (auto dest: length_deduplicateInPlace)

declare dedup_entries.simps [simp del]

record Paths =
  includePaths :: "string list list"
  excludePaths :: "string list list"
  hasPrerendered404 :: bool

text \<open>The object given to \<^verbatim>\<open>JSON.stringify\<close> and written to \<^verbatim>\<open>_routes.json\<close>.\<close>

record Manifest =
  version :: nat
  include_patterns :: "string list"
  exclude_patterns :: "string list"

text \<open>The body of the loop over the routes.\<close>

definition route_step :: "AstroConfig \<Rightarrow> Paths \<Rightarrow> RouteData \<Rightarrow> Paths" where
  "route_step cfg st route =
     (let convertedPath = segmentsToCfSyntax (segments route) cfg;
          st1 = (if pathname route = ''/404'' \<and> prerender route = True
                 then st\<lparr>hasPrerendered404 := True\<rparr> else st);
          st2 = (if rtype route = Page
                 then (if prerender route = False
                       then st1\<lparr>includePaths := includePaths st1 @ [convertedPath]\<rparr>
                       else st1)
                 else st1);
          st3 = (if rtype route = Endpoint
                 then (if prerender route = False
                       then st2\<lparr>includePaths := includePaths st2 @ [convertedPath]\<rparr>
                       else st2\<lparr>excludePaths := excludePaths st2 @ [convertedPath]\<rparr>)
                 else st2)
      in (if rtype route = Redirect
          then st3\<lparr>excludePaths := excludePaths st3 @ [convertedPath]\<rparr>
          else st3))"

definition collect_routes :: "AstroConfig \<Rightarrow> RouteData list \<Rightarrow> Paths" where
  "collect_routes cfg routes =
     foldl (route_step cfg)
       \<lparr>includePaths = [], excludePaths = [], hasPrerendered404 = False\<rparr> routes"

text \<open>\<^verbatim>\<open>String.prototype.split\<close> with the one-character separator \<^verbatim>\<open>posix.sep\<close>.\<close>

fun split_sep :: "char \<Rightarrow> string \<Rightarrow> string list" where
  "split_sep sep [] = [[]]"
| "split_sep sep (c # cs) =
     (if c = sep then [] # split_sep sep cs
      else (case split_sep sep cs of [] \<Rightarrow> [[c]] | p # ps \<Rightarrow> (c # p) # ps))"

text \<open>\<^verbatim>\<open>.map((s) => getParts(s))\<close>: the first error thrown ends the map.\<close>

fun map_getParts :: "string list \<Rightarrow> error + RoutePart list list" where
  "map_getParts [] = Inr []"
| "map_getParts (s # ss) =
     (case getParts s of
        Inl e \<Rightarrow> Inl e
      | Inr parts \<Rightarrow>
          (case map_getParts ss of Inl e \<Rightarrow> Inl e | Inr rest \<Rightarrow> Inr (parts # rest)))"

definition path_segments :: "string \<Rightarrow> error + RoutePart list list" where
  "path_segments path =
     map_getParts (filter (\<lambda>s. s \<noteq> []) (split_sep (CHR ''/'') (removeLeadingForwardSlash path)))"

text \<open>The loop over \<^verbatim>\<open>pages\<close> (their pathnames); \<open>ex\<close> is \<^verbatim>\<open>excludePaths\<close>.\<close>

fun push_pages :: "AstroConfig \<Rightarrow> string list \<Rightarrow> string list list \<Rightarrow> error + string list list" where
  "push_pages cfg [] ex = Inr ex"
| "push_pages cfg (page # pages) ex =
     (case path_segments page of
        Inl e \<Rightarrow> Inl e
      | Inr pageSegments \<Rightarrow> push_pages cfg pages (ex @ [segmentsToCfSyntax pageSegments cfg]))"

text \<open>The loop over \<^verbatim>\<open>staticFiles\<close>, the result of the glob, which is an input here.\<close>

fun push_static :: "AstroConfig \<Rightarrow> string list \<Rightarrow> string list list \<Rightarrow> error + string list list" where
  "push_static cfg [] ex = Inr ex"
| "push_static cfg (staticFile # staticFiles) ex =
     (if staticFile \<in> set [''_headers'', ''_redirects'', ''_routes.json'']
      then push_static cfg staticFiles ex
      else (case path_segments staticFile of
              Inl e \<Rightarrow> Inl e
            | Inr segs \<Rightarrow> push_static cfg staticFiles (ex @ [segmentsToCfSyntax segs cfg])))"

definition assetsPath :: "AstroConfig \<Rightarrow> string list" where
  "assetsPath cfg =
     segmentsToCfSyntax
       [[\<lparr>content = (case assetsPrefix cfg of Some p \<Rightarrow> p | None \<Rightarrow> ''_astro''),
           dynamic = False, spread = False\<rparr>],
        [\<lparr>content = [], dynamic = True, spread = False\<rparr>]]
       cfg"

text \<open>Everything up to the choice of the manifest: the two lists, sorted and passed
  through the loops of \<^verbatim>\<open>deduplicateInPlace\<close>, and the flag.\<close>

definition collect_paths ::
  "AstroConfig \<Rightarrow> RouteData list \<Rightarrow> string list \<Rightarrow> string list \<Rightarrow> RoutePart list list list
     \<Rightarrow> error + Paths" where
  "collect_paths cfg routes pages staticFiles redirects =
     (let st = collect_routes cfg routes in
      case push_pages cfg pages (excludePaths st) of
        Inl e \<Rightarrow> Inl e
      | Inr ex1 \<Rightarrow>
          (case push_static cfg staticFiles ex1 of
             Inl e \<Rightarrow> Inl e
           | Inr ex2 \<Rightarrow>
               (let ex3 = ex2 @ [assetsPath cfg];
                    ex4 = ex3 @ map (\<lambda>redirect. segmentsToCfSyntax redirect cfg) redirects;
                    includeSorted = array_sort sort_cmp (includePaths st);
                    excludeSorted = array_sort sort_cmp ex4
                in case dedup_entries 0 includeSorted of
                     Inl e \<Rightarrow> Inl e
                   | Inr inc \<Rightarrow>
                       (case dedup_entries 0 excludeSorted of
                          Inl e \<Rightarrow> Inl e
                        | Inr exc \<Rightarrow>
                            Inr \<lparr>includePaths = inc, excludePaths = exc,
                                 hasPrerendered404 = hasPrerendered404 st\<rparr>))))"

text \<open>The final \<^verbatim>\<open>if\<close>: the manifest handed to \<^verbatim>\<open>writeFile\<close>, or \<open>None\<close> in the
  last branch, which writes nothing. An error of \<^verbatim>\<open>writeFile\<close> is caught and dropped.\<close>

definition select_manifest :: "Paths \<Rightarrow> Manifest option" where
  "select_manifest st =
     (if \<not> hasPrerendered404 st \<or> length (includePaths st) > 100
         \<or> length (includePaths st) > length (excludePaths st)
      then Some \<lparr>version = 1, include_patterns = [''/*''],
                 exclude_patterns = take 99 (map (join ''/'') (excludePaths st))\<rparr>
      else if length (includePaths st) < length (excludePaths st)
      then Some \<lparr>version = 1, include_patterns = map (join ''/'') (includePaths st),
                 exclude_patterns = []\<rparr>
      else None)"

definition createRoutesFile ::
  "AstroConfig \<Rightarrow> RouteData list \<Rightarrow> string list \<Rightarrow> string list \<Rightarrow> RoutePart list list list
     \<Rightarrow> error + Manifest option" where
  "createRoutesFile cfg routes pages staticFiles redirects =
     (case collect_paths cfg routes pages staticFiles redirects of
        Inl e \<Rightarrow> Inl e
      | Inr st \<Rightarrow> Inr (select_manifest st))"

section \<open>Properties\<close>

subsection \<open>The comparator\<close>

lemma sort_loop_cmp_tokens:
  "length first = length second \<Longrightarrow> i \<le> length first \<Longrightarrow>
   sort_loop first second i = cmp_tokens (drop i first) (drop i second)"
proof (induction first second i rule: sort_loop.induct)
  case (1 first second i)
  show ?case
  proof (cases "i < length first")
    case True
    with "1.prems" have d: "drop i first = first ! i # drop (Suc i) first"
      "drop i second = second ! i # drop (Suc i) second"
      by (simp_all add: Cons_nth_drop_Suc)
    from True "1.prems" have s: "Suc i \<le> length first" by simp
    show ?thesis
      using True "1.IH"(1) [OF True _ "1.prems"(1) s] "1.IH"(2) [OF True _ _ _ "1.prems"(1) s]
      by (subst sort_loop.simps) (auto simp: d)
  next
    case False
    with "1.prems" show ?thesis by (subst sort_loop.simps) simp
  qed
qed

lemma cmp_tokens_before_trans:
  "length a = length b \<Longrightarrow> length b = length c \<Longrightarrow>
   cmp_tokens a b < 0 \<Longrightarrow> cmp_tokens b c < 0 \<Longrightarrow> cmp_tokens a c < 0"
  by (induction a b c rule: list_induct3) (auto split: if_splits)

lemma cmp_tokens_equiv_trans:
  "length a = length b \<Longrightarrow> length b = length c \<Longrightarrow>
   cmp_tokens a b = 0 \<Longrightarrow> cmp_tokens b c = 0 \<Longrightarrow> cmp_tokens a c = 0"
  by (induction a b c rule: list_induct3) (auto split: if_splits)

lemma cmp_tokens_refl: "cmp_tokens a a = 0"
  by (induction a) auto

lemma cmp_tokens_asym:
  "length a = length b \<Longrightarrow> cmp_tokens a b < 0 \<Longrightarrow> \<not> cmp_tokens b a < 0"
  by (induction a b rule: list_induct2) (auto split: if_splits)

lemma sort_cmp_equal_length:
  "length a = length b \<Longrightarrow> sort_cmp a b = cmp_tokens a b"
  by (simp add: sort_cmp_def sort_loop_cmp_tokens)

lemma sort_cmp_before_iff:
  "sort_cmp a b < 0 \<longleftrightarrow> length a < length b \<or> (length a = length b \<and> cmp_tokens a b < 0)"
  by (auto simp: sort_cmp_def sort_loop_cmp_tokens)

lemma sort_cmp_zero_iff:
  "sort_cmp a b = 0 \<longleftrightarrow> length a = length b \<and> cmp_tokens a b = 0"
  by (auto simp: sort_cmp_def sort_loop_cmp_tokens)

text \<open>
  Claim C9. The comparator is a strict weak ordering on token sequences: when \<open>a\<close>
  sorts strictly before \<open>b\<close> and \<open>b\<close> strictly before \<open>c\<close>, then \<open>a\<close> sorts strictly
  before \<open>c\<close>; the result 0 is transitive; no sequence sorts before itself, and two
  sequences never sort before each other.
\<close>

theorem sort_cmp_strict_weak_order:
  "(sort_cmp a b < 0 \<longrightarrow> sort_cmp b c < 0 \<longrightarrow> sort_cmp a c < 0) \<and>
   (sort_cmp a b = 0 \<longrightarrow> sort_cmp b c = 0 \<longrightarrow> sort_cmp a c = 0) \<and>
   \<not> sort_cmp a a < 0 \<and>
   (sort_cmp a b < 0 \<longrightarrow> \<not> sort_cmp b a < 0)"
proof (intro conjI impI)
  assume "sort_cmp a b < 0" and "sort_cmp b c < 0"
  then show "sort_cmp a c < 0"
    unfolding sort_cmp_before_iff using cmp_tokens_before_trans [of a b c] by auto
next
  assume "sort_cmp a b = 0" and "sort_cmp b c = 0"
  then show "sort_cmp a c = 0"
    unfolding sort_cmp_zero_iff using cmp_tokens_equiv_trans [of a b c] by auto
next
  show "\<not> sort_cmp a a < 0"
    by (simp add: sort_cmp_before_iff cmp_tokens_refl)
next
  assume "sort_cmp a b < 0"
  then show "\<not> sort_cmp b a < 0"
    unfolding sort_cmp_before_iff using cmp_tokens_asym [of a b] by auto
qed

text \<open>Claim C9 at three sequences of each kind.\<close>

theorem sort_cmp_strict_weak_order_witness:
  "sort_cmp [''x''] ['''', ''*''] < 0 \<and> sort_cmp ['''', ''*''] ['''', ''b''] < 0 \<and>
   sort_cmp [''x''] ['''', ''b''] < 0 \<and>
   sort_cmp ['''', ''a''] ['''', ''b''] = 0 \<and> sort_cmp ['''', ''b''] ['''', ''c''] = 0 \<and>
   sort_cmp ['''', ''a''] ['''', ''c''] = 0 \<and>
   \<not> sort_cmp ['''', ''b''] ['''', ''*''] < 0"
proof -
  have 1: "sort_cmp [''x''] ['''', ''*''] < 0" by code_simp
  have 2: "sort_cmp ['''', ''*''] ['''', ''b''] < 0" by code_simp
  have 3: "sort_cmp ['''', ''a''] ['''', ''b''] = 0" by code_simp
  have 4: "sort_cmp ['''', ''b''] ['''', ''c''] = 0" by code_simp
  from 1 2 sort_cmp_strict_weak_order [of "[''x'']" "['''', ''*'']" "['''', ''b'']"]
  have 5: "sort_cmp [''x''] ['''', ''b''] < 0" by blast
  from 3 4 sort_cmp_strict_weak_order [of "['''', ''a'']" "['''', ''b'']" "['''', ''c'']"]
  have 6: "sort_cmp ['''', ''a''] ['''', ''c''] = 0" by blast
  from 2 sort_cmp_strict_weak_order [of "['''', ''*'']" "['''', ''b'']" "[]"]
  have 7: "\<not> sort_cmp ['''', ''b''] ['''', ''*''] < 0" by blast
  from 1 2 3 4 5 6 7 show ?thesis by blast
qed

text \<open>
  Claim C2 (the code departs from it). The claim and the comment in the loop
  (\<^verbatim>\<open>wildcard segments should be sorted last\<close>) put the literal token first. The
  comparator returns 1 for \<^verbatim>\<open>["/a", "b"]\<close> against \<^verbatim>\<open>["/a", "*"]\<close> and \<open>- 1\<close> the other
  way round: the sequence with the wildcard sorts first.
\<close>

theorem sort_cmp_wildcard_first:
  "sort_cmp [''/a'', ''b''] [''/a'', ''*''] = 1 \<and> sort_cmp [''/a'', ''*''] [''/a'', ''b''] = - 1"
  by (simp add: sort_cmp_def sort_loop.simps)

subsection \<open>The segment parser\<close>

lemma name_char_plain:
  "wordChar c \<or> c = CHR ''$'' \<Longrightarrow>
   c \<noteq> CHR ''('' \<and> c \<noteq> CHR '']'' \<and> c \<noteq> CHR ''.'' \<and> \<not> lineTerminator c"
  by (auto simp: wordChar_def lineTerminator_def)

lemma re_dot_star_lazy_no_paren:
  "CHR ''('' \<notin> set s \<Longrightarrow> re_dot_star_lazy (re_char (CHR ''('') k) s = None"
  by (induction s) auto

lemma bracket_alt1_no_paren: "CHR ''('' \<notin> set s \<Longrightarrow> bracket_alt1 s = None"
  by (cases s) (auto simp: bracket_alt1_def re_dot_star_lazy_no_paren)

lemma re_dot_star_lazy_to_bracket:
  "list_all (\<lambda>c. \<not> lineTerminator c \<and> c \<noteq> CHR '']'') w \<Longrightarrow>
   re_dot_star_lazy (re_char (CHR '']'') Some) (w @ CHR '']'' # r) = Some r"
  by (induction w) auto

lemma bracket_alt2_to_bracket:
  "w \<noteq> [] \<Longrightarrow> list_all (\<lambda>c. \<not> lineTerminator c \<and> c \<noteq> CHR '']'') w \<Longrightarrow>
   bracket_alt2 (w @ CHR '']'' # r) = Some r"
  by (cases w) (auto simp: bracket_alt2_def re_dot_star_lazy_to_bracket)

lemma match_bracket_simple:
  assumes "w \<noteq> []" and "CHR ''('' \<notin> set w"
    and "list_all (\<lambda>c. \<not> lineTerminator c \<and> c \<noteq> CHR '']'') w"
  shows "match_bracket (CHR ''['' # w @ '']'') = Some (w, [])"
proof -
  have a1: "bracket_alt1 (w @ '']'') = None"
    using assms(2) by (simp add: bracket_alt1_no_paren)
  have a2: "bracket_alt2 (w @ '']'') = Some []"
    using assms(1,3) bracket_alt2_to_bracket [of w "[]"] by simp
  show ?thesis
    by (simp add: match_bracket_def a1 a2)
qed

lemma split_bracket_simple:
  assumes "w \<noteq> []" and "CHR ''('' \<notin> set w"
    and "list_all (\<lambda>c. \<not> lineTerminator c \<and> c \<noteq> CHR '']'') w"
  shows "split_bracket [] (CHR ''['' # w @ '']'') = [[], w, []]"
  using match_bracket_simple [OF assms] by simp

lemma exec_name_no_paren: "w \<noteq> [] \<Longrightarrow> CHR ''('' \<notin> set w \<Longrightarrow> exec_name w = Some w"
  by (cases w) auto

text \<open>
  Claim C6 as stated fails: \<^verbatim>\<open>[1abc]\<close> raises nothing. The class \<^verbatim>\<open>[\w$]\<close> of the test
  holds the digits, also in first place, and the parser returns one dynamic part.
\<close>

theorem getParts_digit_first_accepted:
  "getParts ''[1abc]'' = Inr [\<lparr>content = ''1abc'', dynamic = True, spread = False\<rparr>]"
  by code_simp

text \<open>
  Claim C6, amended. For \<^verbatim>\<open>[..x]\<close>, a spread marker of two dots, the parser throws its
  Error (a plain \<^verbatim>\<open>Error\<close> with the message about the parameter name) and returns no
  parts; for \<^verbatim>\<open>[1abc]\<close> it throws nothing and returns the dynamic part \<^verbatim>\<open>1abc\<close>.
\<close>

theorem getParts_two_dots_and_digit:
  "getParts ''[..x]'' = Inl (Error ''Parameter name must match /^[a-zA-Z0-9_$]+$/'') \<and>
   getParts ''[1abc]'' = Inr [\<lparr>content = ''1abc'', dynamic = True, spread = False\<rparr>]"
  by code_simp

text \<open>
  Claim C8 as stated fails: the content of the part for \<^verbatim>\<open>[...slug]\<close> is \<^verbatim>\<open>...slug\<close>,
  with the three dots, not \<^verbatim>\<open>slug\<close>.
\<close>

theorem getParts_spread_keeps_dots:
  "getParts ''[...slug]'' = Inr [\<lparr>content = ''...slug'', dynamic = True, spread = True\<rparr>] \<and>
   ''...slug'' \<noteq> ''slug''"
  by code_simp

text \<open>
  Claim C8, amended. For every segment \<^verbatim>\<open>[...name]\<close> whose name is a non-empty word
  over \<^verbatim>\<open>[A-Za-z0-9_$]\<close>, the parser returns exactly one part, with \<open>spread\<close> and
  \<open>dynamic\<close> true and with the content \<^verbatim>\<open>...name\<close>: the brackets are removed, the three
  dots are kept.
\<close>

theorem getParts_spread:
  assumes "wordPlus name"
  shows "getParts (''[...'' @ name @ '']'') =
           Inr [\<lparr>content = ''...'' @ name, dynamic = True, spread = True\<rparr>]"
proof -
  let ?w = "''...'' @ name"
  from assms have ne: "name \<noteq> []"
    and chars: "list_all (\<lambda>c. wordChar c \<or> c = CHR ''$'') name"
    by (simp_all add: wordPlus_def)
  from chars have plain: "\<forall>c\<in>set name. c \<noteq> CHR ''('' \<and> c \<noteq> CHR '']'' \<and> \<not> lineTerminator c"
    using name_char_plain by (auto simp: list_all_iff)
  have w1: "?w \<noteq> []" by simp
  have w2: "CHR ''('' \<notin> set ?w" using plain by auto
  have w3: "list_all (\<lambda>c. \<not> lineTerminator c \<and> c \<noteq> CHR '']'') ?w"
    using plain by (auto simp: list_all_iff lineTerminator_def)
  have sp: "split_bracket [] (''[...'' @ name @ '']'') = [[], ?w, []]"
    using split_bracket_simple [OF w1 w2 w3] by simp
  have ex: "exec_name ?w = Some ?w"
    using exec_name_no_paren [OF w1 w2] .
  have tn: "test_name ?w"
    using assms by (simp add: test_name_def)
  have ts: "test_spread ?w"
    using ne plain by (simp add: test_spread_def list_all_iff)
  show ?thesis
    unfolding getParts_def sp using ex tn ts by (simp add: Let_def)
qed

text \<open>Claim C8, amended, at the name \<^verbatim>\<open>slug\<close>.\<close>

theorem getParts_spread_witness:
  "wordPlus ''slug'' \<and>
   getParts ''[...slug]'' = Inr [\<lparr>content = ''...slug'', dynamic = True, spread = True\<rparr>]"
proof -
  have w: "wordPlus ''slug''" by (simp add: wordPlus_def wordChar_def)
  from getParts_spread [OF w] show ?thesis using w by simp
qed

subsection \<open>The pattern compiler\<close>

lemma push_segments_map:
  "push_segments parts acc = acc @ map (\<lambda>p. if dynamic p then ''*'' else content p) parts"
  by (induction parts arbitrary: acc) auto

text \<open>
  Claim C3 as stated fails: the segment \<^verbatim>\<open>prefix-[id]\<close> is one segment of two parts,
  and the compiler emits two tokens for it, the literal \<^verbatim>\<open>prefix-\<close> and the wildcard.
\<close>

theorem segmentsToCfSyntax_mixed_segment:
  "getParts ''prefix-[id]'' =
     Inr [\<lparr>content = ''prefix-'', dynamic = False, spread = False\<rparr>,
          \<lparr>content = ''id'', dynamic = True, spread = False\<rparr>] \<and>
   segmentsToCfSyntax
     [[\<lparr>content = ''prefix-'', dynamic = False, spread = False\<rparr>,
       \<lparr>content = ''id'', dynamic = True, spread = False\<rparr>]]
     \<lparr>base = ''/'', assetsPrefix = None\<rparr> = [[], ''prefix-'', ''*''] \<and>
   [[], ''prefix-'', ''*''] \<noteq> [[], ''*'']"
  by code_simp

text \<open>
  Claim C3, amended. For every non-empty segment list the compiler emits, after the
  base-path token, exactly one token per part of the flattened segments, in order:
  the wildcard \<^verbatim>\<open>*\<close> for a dynamic part and the content of the part otherwise. The
  number of tokens is one more than the number of parts.
\<close>

theorem segmentsToCfSyntax_token_per_part:
  "segs \<noteq> [] \<Longrightarrow>
   segmentsToCfSyntax segs cfg =
     removeLeadingForwardSlash (removeTrailingForwardSlash (base cfg)) #
     map (\<lambda>p. if dynamic p then ''*'' else content p) (concat segs) \<and>
   length (segmentsToCfSyntax segs cfg) = 1 + sum_list (map length segs)"
  by (simp add: segmentsToCfSyntax_def push_segments_map length_concat)

text \<open>Claim C3, amended, at the segments of \<^verbatim>\<open>/posts/[id]\<close>.\<close>

theorem segmentsToCfSyntax_token_per_part_witness:
  "[[\<lparr>content = ''posts'', dynamic = False, spread = False\<rparr>],
    [\<lparr>content = ''id'', dynamic = True, spread = False\<rparr>]] \<noteq> [] \<and>
   segmentsToCfSyntax
     [[\<lparr>content = ''posts'', dynamic = False, spread = False\<rparr>],
      [\<lparr>content = ''id'', dynamic = True, spread = False\<rparr>]]
     \<lparr>base = ''/'', assetsPrefix = None\<rparr> = [[], ''posts'', ''*'']"
  using segmentsToCfSyntax_token_per_part
    [of "[[\<lparr>content = ''posts'', dynamic = False, spread = False\<rparr>],
          [\<lparr>content = ''id'', dynamic = True, spread = False\<rparr>]]"
        "\<lparr>base = ''/'', assetsPrefix = None\<rparr>"]
  by (simp add: removeLeadingForwardSlash_def removeTrailingForwardSlash_def)

text \<open>
  Claim C7 (the code departs from it). For the empty segment list the compiler
  returns two empty tokens whatever the base path is: with the base \<^verbatim>\<open>/blog/\<close>, whose
  normal form is \<^verbatim>\<open>blog\<close>, the first token is empty.
\<close>

theorem segmentsToCfSyntax_empty_ignores_base:
  "segmentsToCfSyntax [] cfg = [[], []] \<and>
   removeLeadingForwardSlash (removeTrailingForwardSlash ''/blog/'') = ''blog'' \<and>
   segmentsToCfSyntax [] \<lparr>base = ''/blog/'', assetsPrefix = None\<rparr> \<noteq> [''blog'', []]"
  by (simp add: segmentsToCfSyntax_def removeLeadingForwardSlash_def removeTrailingForwardSlash_def)

subsection \<open>The deduplication pass\<close>

text \<open>
  Claim C4 (the code departs from it). The list of three copies of \<^verbatim>\<open>["", "a"]\<close> is
  sorted; the pass over it leaves two copies. The one RegExp of a call has the flag
  \<^verbatim>\<open>g\<close>: the test that removes the second copy leaves \<^verbatim>\<open>lastIndex\<close> at 2, so the test
  of the third copy starts at its end and fails. Also, the pattern source is not
  escaped: \<^verbatim>\<open>["", "a", "*", "b"]\<close> gives the pattern \<^verbatim>\<open>/a/*/b$\<close>, which does not
  match the text \<^verbatim>\<open>/a/*/b\<close>, and a second copy of it stays.
\<close>

theorem dedup_entries_keeps_duplicate:
  "array_sort sort_cmp [[[], ''a''], [[], ''a''], [[], ''a'']] =
     [[[], ''a''], [[], ''a''], [[], ''a'']] \<and>
   dedup_entries 0 [[[], ''a''], [[], ''a''], [[], ''a'']] = Inr [[[], ''a''], [[], ''a'']] \<and>
   dedup_entries 0 [[[], ''a'', ''*'', ''b''], [[], ''a'', ''*'', ''b'']] =
     Inr [[[], ''a'', ''*'', ''b''], [[], ''a'', ''*'', ''b'']]"
  by code_simp

text \<open>
  Claim C5 (the code departs from it). On the sorted list of \<^verbatim>\<open>/a/*\<close>, \<^verbatim>\<open>/a/b\<close> and
  \<^verbatim>\<open>/a/b/c\<close> the first pass removes \<^verbatim>\<open>/a/b\<close> and keeps \<^verbatim>\<open>/a/b/c\<close>, whose test starts
  at the \<^verbatim>\<open>lastIndex\<close> 4 left by the match before it; a second pass over the result
  removes \<^verbatim>\<open>/a/b/c\<close> too.
\<close>

theorem dedup_entries_second_pass_differs:
  "array_sort sort_cmp [[[], ''a'', ''*''], [[], ''a'', ''b''], [[], ''a'', ''b'', ''c'']] =
     [[[], ''a'', ''*''], [[], ''a'', ''b''], [[], ''a'', ''b'', ''c'']] \<and>
   dedup_entries 0 [[[], ''a'', ''*''], [[], ''a'', ''b''], [[], ''a'', ''b'', ''c'']] =
     Inr [[[], ''a'', ''*''], [[], ''a'', ''b'', ''c'']] \<and>
   dedup_entries 0 [[[], ''a'', ''*''], [[], ''a'', ''b'', ''c'']] = Inr [[[], ''a'', ''*'']]"
  by code_simp

subsection \<open>The choice of the manifest\<close>

lemma route_step_flag:
  "hasPrerendered404 (route_step cfg st route) =
     (hasPrerendered404 st \<or> (pathname route = ''/404'' \<and> prerender route))"
  by (simp add: route_step_def Let_def)

lemma foldl_route_step_flag:
  "hasPrerendered404 (foldl (route_step cfg) st routes) =
     (hasPrerendered404 st \<or> (\<exists>route\<in>set routes. pathname route = ''/404'' \<and> prerender route))"
  by (induction routes arbitrary: st) (auto simp: route_step_flag)

lemma collect_paths_flag:
  "collect_paths cfg routes pages staticFiles redirects = Inr st \<Longrightarrow>
   hasPrerendered404 st = hasPrerendered404 (collect_routes cfg routes)"
  by (auto simp: collect_paths_def Let_def split: sum.splits)

text \<open>
  Claim C10. After the loop over the routes, \<open>hasPrerendered404\<close> is true exactly
  when some route of the list has the pathname \<^verbatim>\<open>/404\<close> and \<open>prerender\<close> true; the type
  of the route plays no part. The later stages leave the flag as it is, so the same
  holds for the flag that the choice of the manifest reads.
\<close>

theorem hasPrerendered404_iff:
  "hasPrerendered404 (collect_routes cfg routes) =
     (\<exists>route\<in>set routes. pathname route = ''/404'' \<and> prerender route) \<and>
   (collect_paths cfg routes pages staticFiles redirects = Inr st \<longrightarrow>
      hasPrerendered404 st =
        (\<exists>route\<in>set routes. pathname route = ''/404'' \<and> prerender route))"
  by (auto simp: collect_paths_flag collect_routes_def foldl_route_step_flag)

text \<open>
  Claim C10 at a prerendered endpoint \<^verbatim>\<open>/404\<close> next to one server page: the flag is
  set.
\<close>

theorem hasPrerendered404_iff_witness:
  "collect_paths \<lparr>base = ''/'', assetsPrefix = None\<rparr>
     [\<lparr>segments = [[\<lparr>content = ''404'', dynamic = False, spread = False\<rparr>]],
        rtype = Endpoint, prerender = True, pathname = ''/404''\<rparr>,
      \<lparr>segments = [[\<lparr>content = ''posts'', dynamic = False, spread = False\<rparr>],
                    [\<lparr>content = ''id'', dynamic = True, spread = False\<rparr>]],
        rtype = Page, prerender = False, pathname = ''/posts/[id]''\<rparr>]
     [] [''favicon.ico''] [] =
   Inr \<lparr>includePaths = [[[], ''posts'', ''*'']],
        excludePaths = [[[], ''404''], [[], ''favicon.ico''], [[], ''_astro'', ''*'']],
        hasPrerendered404 = True\<rparr> \<and>
   hasPrerendered404
     (collect_routes \<lparr>base = ''/'', assetsPrefix = None\<rparr>
        [\<lparr>segments = [[\<lparr>content = ''404'', dynamic = False, spread = False\<rparr>]],
           rtype = Endpoint, prerender = True, pathname = ''/404''\<rparr>,
         \<lparr>segments = [[\<lparr>content = ''posts'', dynamic = False, spread = False\<rparr>],
                       [\<lparr>content = ''id'', dynamic = True, spread = False\<rparr>]],
           rtype = Page, prerender = False, pathname = ''/posts/[id]''\<rparr>])"
proof -
  let ?cfg = "\<lparr>base = ''/'', assetsPrefix = None\<rparr>"
  let ?routes =
    "[\<lparr>segments = [[\<lparr>content = ''404'', dynamic = False, spread = False\<rparr>]],
        rtype = Endpoint, prerender = True, pathname = ''/404''\<rparr>,
      \<lparr>segments = [[\<lparr>content = ''posts'', dynamic = False, spread = False\<rparr>],
                    [\<lparr>content = ''id'', dynamic = True, spread = False\<rparr>]],
        rtype = Page, prerender = False, pathname = ''/posts/[id]''\<rparr>]"
  have run: "collect_paths ?cfg ?routes [] [''favicon.ico''] [] =
      Inr \<lparr>includePaths = [[[], ''posts'', ''*'']],
           excludePaths = [[[], ''404''], [[], ''favicon.ico''], [[], ''_astro'', ''*'']],
           hasPrerendered404 = True\<rparr>"
    by code_simp
  have "\<exists>route\<in>set ?routes. pathname route = ''/404'' \<and> prerender route"
    by simp
  with hasPrerendered404_iff [of ?cfg ?routes]
  have "hasPrerendered404 (collect_routes ?cfg ?routes)"
    by blast
  with run show ?thesis by blast
qed

text \<open>
  Claim C1. Whenever the final \<^verbatim>\<open>if\<close> is reached with the flag \<open>hasPrerendered404\<close>
  false, or with more than 100 include paths, or with more include paths than
  exclude paths (both lists after the deduplication pass), the manifest chosen is
  the exclude-mode one: \<open>include\<close> is exactly \<^verbatim>\<open>["/*"]\<close> and \<open>exclude\<close> is the first 99
  exclude paths, each joined with \<^verbatim>\<open>/\<close>. This holds for the choice on any lists, and
  so for the whole run whenever the earlier stages end in such lists.
\<close>

theorem createRoutesFile_exclude_mode:
  "\<not> hasPrerendered404 st \<or> length (includePaths st) > 100
     \<or> length (includePaths st) > length (excludePaths st) \<Longrightarrow>
   select_manifest st =
     Some \<lparr>version = 1, include_patterns = [''/*''],
            exclude_patterns = map (join ''/'') (take 99 (excludePaths st))\<rparr> \<and>
   (collect_paths cfg routes pages staticFiles redirects = Inr st \<longrightarrow>
    createRoutesFile cfg routes pages staticFiles redirects =
      Inr (Some \<lparr>version = 1, include_patterns = [''/*''],
                  exclude_patterns = map (join ''/'') (take 99 (excludePaths st))\<rparr>))"
  by (auto simp: createRoutesFile_def select_manifest_def take_map)

text \<open>Claim C1 at one server page, one static page and one public file, with no
  prerendered \<^verbatim>\<open>/404\<close>.\<close>

theorem createRoutesFile_exclude_mode_witness:
  "collect_paths \<lparr>base = ''/'', assetsPrefix = None\<rparr>
     [\<lparr>segments = [[\<lparr>content = ''posts'', dynamic = False, spread = False\<rparr>],
                    [\<lparr>content = ''id'', dynamic = True, spread = False\<rparr>]],
        rtype = Page, prerender = False, pathname = ''/posts/[id]''\<rparr>]
     [''/about/''] [''favicon.ico''] [] =
   Inr \<lparr>includePaths = [[[], ''posts'', ''*'']],
        excludePaths = [[[], ''about''], [[], ''favicon.ico''], [[], ''_astro'', ''*'']],
        hasPrerendered404 = False\<rparr> \<and>
   createRoutesFile \<lparr>base = ''/'', assetsPrefix = None\<rparr>
     [\<lparr>segments = [[\<lparr>content = ''posts'', dynamic = False, spread = False\<rparr>],
                    [\<lparr>content = ''id'', dynamic = True, spread = False\<rparr>]],
        rtype = Page, prerender = False, pathname = ''/posts/[id]''\<rparr>]
     [''/about/''] [''favicon.ico''] [] =
   Inr (Some \<lparr>version = 1, include_patterns = [''/*''],
               exclude_patterns = [''/about'', ''/favicon.ico'', ''/_astro/*'']\<rparr>)"
proof -
  let ?cfg = "\<lparr>base = ''/'', assetsPrefix = None\<rparr>"
  let ?routes =
    "[\<lparr>segments = [[\<lparr>content = ''posts'', dynamic = False, spread = False\<rparr>],
                    [\<lparr>content = ''id'', dynamic = True, spread = False\<rparr>]],
        rtype = Page, prerender = False, pathname = ''/posts/[id]''\<rparr>]"
  let ?st = "\<lparr>includePaths = [[[], ''posts'', ''*'']],
      excludePaths = [[[], ''about''], [[], ''favicon.ico''], [[], ''_astro'', ''*'']],
      hasPrerendered404 = False\<rparr>"
  have run: "collect_paths ?cfg ?routes [''/about/''] [''favicon.ico''] [] = Inr ?st"
    by code_simp
  have cond: "\<not> hasPrerendered404 ?st \<or> length (includePaths ?st) > 100
      \<or> length (includePaths ?st) > length (excludePaths ?st)"
    by simp
  from createRoutesFile_exclude_mode
    [where st = ?st and cfg = ?cfg and routes = ?routes and pages = "[''/about/'']"
       and staticFiles = "[''favicon.ico'']" and redirects = "[]", OF cond]
    run
  show ?thesis
    by simp
qed

end
